theory Spec2Isabelle
  imports Complex_Main "HOL-Library.Word" "HOL-Library.Sublist"
begin

section \<open>Audio frames and the volume meter\<close>

text \<open>
  The audio callback of \<^verbatim>\<open>voice_input_tool.py\<close> appends one buffer of signed 16-bit
  samples per call to \<^verbatim>\<open>self.frames\<close>. A frame is modelled as the list of its samples,
  that is, as the view \<^verbatim>\<open>np.frombuffer(buf, dtype=np.int16)\<close> gives of it; joining buffers
  with \<^verbatim>\<open>b''.join\<close> is then the concatenation of the sample lists.
\<close>

type_synonym sample = "16 word"
type_synonym frame = "sample list"

text \<open>
  \<^verbatim>\<open>np.abs\<close> on an int16 array stays in int16: the negation wraps, so the absolute value
  of \<open>- 32768\<close> is \<open>- 32768\<close> again.
\<close>

definition np_abs :: "sample \<Rightarrow> sample" where
  "np_abs x = (if sint x < 0 then - x else x)"

text \<open>
  \<^verbatim>\<open>volume = np.abs(data).mean()\<close>: the mean is taken in float64 over the int16
  results of \<^verbatim>\<open>np.abs\<close>. The mean of an empty array is NaN, here \<open>None\<close>. The float64
  value is taken as the real number it approximates.
\<close>

definition volume :: "sample list \<Rightarrow> real option" where
  "volume data =
     (if data = [] then None
      else Some (real_of_int (sum_list (map (\<lambda>x. sint (np_abs x)) data)) / real (length data)))"

text \<open>
  \<^verbatim>\<open>detect_silence(audio_data, threshold=200)\<close> returns \<^verbatim>\<open>volume < threshold\<close>; a
  comparison with NaN is false. The update of the record button's volume display is a
  GUI effect and is left out.
\<close>

definition detect_silence :: "sample list \<Rightarrow> real \<Rightarrow> bool" where
  "detect_silence audio_data thr =
     (case volume audio_data of None \<Rightarrow> False | Some v \<Rightarrow> v < thr)"

section \<open>Transcription of one chunk: process_chunk\<close>

text \<open>
  Recognised text is a Python \<^verbatim>\<open>str\<close>, modelled as the list of its code points. Which
  code points \<^verbatim>\<open>str.strip()\<close> removes is Python's table and not part of the repository:
  the whitespace class is the parameter \<open>sp\<close>.
\<close>

type_synonym pystr = "nat list"

definition strip :: "(nat \<Rightarrow> bool) \<Rightarrow> pystr \<Rightarrow> pystr" where
  "strip sp s = rev (dropWhile sp (rev (dropWhile sp s)))"

text \<open>
  What the collaborators of one \<^verbatim>\<open>process_chunk\<close> call do: \<open>wav_io\<close> is the exception, if
  any, raised while the chunk is written to the temporary wav file and read back
  (\<^verbatim>\<open>wave.open\<close> ... \<^verbatim>\<open>self.recognizer.record(source)\<close>), which no handler of
  \<^verbatim>\<open>process_chunk\<close> catches; \<open>recognized\<close> is the outcome of the one call of
  \<^verbatim>\<open>recognize_google\<close>.
\<close>

datatype recognition = Text pystr | UnknownValueError | OtherError string

record collaborators =
  wav_io :: "string option"
  recognized :: recognition

datatype log_line = Recognized pystr | RecognitionFailed string

text \<open>
  The world outside the segmentation loop: the text queue, the lines printed, the number
  of calls of \<^verbatim>\<open>recognize_google\<close>, the chunks \<^verbatim>\<open>process_chunk\<close> was called with (in
  order), and the exception that left \<^verbatim>\<open>process_chunk\<close> uncaught, if one did: it ends
  the thread that runs \<^verbatim>\<open>process_audio\<close>.
\<close>

record world =
  text_queue :: "pystr list"
  printed :: "log_line list"
  recognize_calls :: nat
  handed :: "frame list list"
  uncaught :: "string option"

definition process_chunk ::
  "(nat \<Rightarrow> bool) \<Rightarrow> collaborators \<Rightarrow> frame list \<Rightarrow> world \<Rightarrow> world" where
  "process_chunk sp col chunk w0 =
     (let w = w0\<lparr>handed := handed w0 @ [chunk]\<rparr> in
      if chunk = [] then w
      else case wav_io col of
        Some e \<Rightarrow> w\<lparr>uncaught := Some e\<rparr>
      | None \<Rightarrow>
          (let w1 = w\<lparr>recognize_calls := recognize_calls w + 1\<rparr> in
           case recognized col of
             Text t \<Rightarrow>
               if strip sp t \<noteq> []
               then w1\<lparr>printed := printed w1 @ [Recognized t],
                       text_queue := text_queue w1 @ [strip sp t]\<rparr>
               else w1
           | UnknownValueError \<Rightarrow> w1
           | OtherError e \<Rightarrow> w1\<lparr>printed := printed w1 @ [RecognitionFailed e]\<rparr>))"

section \<open>The segmentation loop: process_audio\<close>

text \<open>
  \<^verbatim>\<open>process_audio\<close> fixes \<^verbatim>\<open>min_silence_duration = 1.0\<close>, \<^verbatim>\<open>min_chunk_duration = 1.0\<close>
  and \<^verbatim>\<open>max_chunk_duration = 10\<close> as locals and calls \<^verbatim>\<open>detect_silence\<close> with its default
  threshold 200. The model takes the four values as a record, \<open>default_config\<close> being
  the source's.
\<close>

record config =
  min_silence_duration :: real
  min_chunk_duration :: real
  max_chunk_duration :: real
  threshold :: real

definition default_config :: config where
  "default_config =
     \<lparr>min_silence_duration = 1, min_chunk_duration = 1, max_chunk_duration = 10,
      threshold = 200\<rparr>"

text \<open>
  The locals of \<^verbatim>\<open>process_audio\<close> that live across iterations. \<open>is_silent\<close> is unbound
  (\<open>None\<close>) until the first batch is classified. Timestamps are the floats of
  \<^verbatim>\<open>time.time()\<close>, taken as reals.
\<close>

record loop_state =
  silence_start :: "real option"
  last_process_size :: nat
  accumulated_frames :: "frame list"
  last_active_time :: real
  is_processing :: bool
  is_listening :: bool
  is_silent :: "bool option"

definition initial_state :: "real \<Rightarrow> loop_state" where
  "initial_state t0 =
     \<lparr>silence_start = None, last_process_size = 0, accumulated_frames = [],
      last_active_time = t0, is_processing = False, is_listening = False,
      is_silent = None\<rparr>"

definition initial_world :: world where
  "initial_world =
     \<lparr>text_queue = [], printed = [], recognize_calls = 0, handed = [], uncaught = None\<rparr>"

text \<open>
  What one iteration of the loop reads from outside: \<open>recording\<close> is \<^verbatim>\<open>self.is_recording\<close>
  at the loop head, \<open>current_size\<close> is \<^verbatim>\<open>len(self.frames)\<close> (line 391), \<open>current_time\<close> is
  \<^verbatim>\<open>time.time()\<close> (line 392) and \<open>frames\<close> is \<^verbatim>\<open>self.frames\<close> as the slice of line 395
  reads it. The audio callback runs on another thread and no lock is taken, so the list
  read at line 395 can be longer than the length read at line 391. \<open>answers\<close> is what the
  collaborators of \<^verbatim>\<open>process_chunk\<close> do if it is called in this iteration.
\<close>

record obs =
  recording :: bool
  current_size :: nat
  frames :: "frame list"
  current_time :: real
  answers :: collaborators

text \<open>\<^verbatim>\<open>chunk_duration = (len(accumulated_frames) * 1024) / samples_per_second\<close>\<close>

definition chunk_duration :: "frame list \<Rightarrow> real" where
  "chunk_duration acc = real (length acc * 1024) / 44100"

text \<open>
  Lines 395 to 413: the new frames are sliced off, classified as one joined batch,
  appended to the pending chunk, and the silence tracker is updated.
\<close>

definition new_frames :: "obs \<Rightarrow> loop_state \<Rightarrow> frame list" where
  "new_frames ob st = drop (last_process_size st) (frames ob)"

definition batch_silent :: "config \<Rightarrow> obs \<Rightarrow> loop_state \<Rightarrow> bool" where
  "batch_silent cfg ob st = detect_silence (concat (new_frames ob st)) (threshold cfg)"

definition classified :: "config \<Rightarrow> obs \<Rightarrow> loop_state \<Rightarrow> loop_state" where
  "classified cfg ob st =
     (let silent = batch_silent cfg ob st;
          st1 = st\<lparr>is_silent := Some silent,
                   accumulated_frames := accumulated_frames st @ new_frames ob st\<rparr>
      in if \<not> silent
         then st1\<lparr>last_active_time := current_time ob, is_listening := True,
                  silence_start := None\<rparr>
         else (case silence_start st1 of
                 None \<Rightarrow> st1\<lparr>silence_start := Some (current_time ob), is_listening := False\<rparr>
               | Some t \<Rightarrow> st1))"

text \<open>
  Lines 415 to 422. \<^verbatim>\<open>if silence_start and ...\<close> tests the truth value of
  \<^verbatim>\<open>silence_start\<close>: \<^verbatim>\<open>None\<close> and the float \<open>0.0\<close> are both false.
\<close>

definition should_process :: "config \<Rightarrow> real option \<Rightarrow> real \<Rightarrow> real \<Rightarrow> bool" where
  "should_process cfg ss now dur =
     (case ss of
        None \<Rightarrow> max_chunk_duration cfg \<le> dur
      | Some t \<Rightarrow>
          if t \<noteq> 0 \<and> min_silence_duration cfg \<le> now - t
          then min_chunk_duration cfg \<le> dur
          else max_chunk_duration cfg \<le> dur)"

text \<open>The branch of lines 418 to 422 that sets \<^verbatim>\<open>should_process\<close>, if one does.\<close>

datatype rule = SilenceRule | ForceCut

definition emission_rule :: "config \<Rightarrow> real option \<Rightarrow> real \<Rightarrow> real \<Rightarrow> rule option" where
  "emission_rule cfg ss now dur =
     (case ss of
        None \<Rightarrow> if max_chunk_duration cfg \<le> dur then Some ForceCut else None
      | Some t \<Rightarrow>
          if t \<noteq> 0 \<and> min_silence_duration cfg \<le> now - t
          then (if min_chunk_duration cfg \<le> dur then Some SilenceRule else None)
          else (if max_chunk_duration cfg \<le> dur then Some ForceCut else None))"

text \<open>
  Lines 424 to 432: the hand-off. When \<^verbatim>\<open>process_chunk\<close> raises, the statements after
  the call do not run.
\<close>

definition emit :: "(nat \<Rightarrow> bool) \<Rightarrow> obs \<Rightarrow> loop_state \<times> world \<Rightarrow> loop_state \<times> world" where
  "emit sp ob s =
     (let st = (fst s)\<lparr>is_processing := True\<rparr>;
          w = process_chunk sp (answers ob) (accumulated_frames st) (snd s)
      in if uncaught w \<noteq> None then (st, w)
         else (st\<lparr>accumulated_frames := [], silence_start := None,
                  is_processing := False, is_listening := False\<rparr>, w))"

text \<open>One iteration of the loop body, lines 387 to 436.\<close>

definition tick ::
  "(nat \<Rightarrow> bool) \<Rightarrow> config \<Rightarrow> obs \<Rightarrow> loop_state \<times> world \<Rightarrow> loop_state \<times> world" where
  "tick sp cfg ob s =
     (let st = fst s in
      if is_processing st then s
      else if last_process_size st < current_size ob then
        (let st1 = classified cfg ob st in
         if should_process cfg (silence_start st1) (current_time ob)
              (chunk_duration (accumulated_frames st1))
         then (let s2 = emit sp ob (st1, snd s) in
               if uncaught (snd s2) \<noteq> None then s2
               else (fst s2\<lparr>last_process_size := current_size ob\<rparr>, snd s2))
         else (st1\<lparr>last_process_size := current_size ob\<rparr>, snd s))
      else s)"

text \<open>The rule that fires in an iteration, if the check runs and one fires.\<close>

definition tick_rule :: "config \<Rightarrow> obs \<Rightarrow> loop_state \<Rightarrow> rule option" where
  "tick_rule cfg ob st =
     (if is_processing st \<or> \<not> last_process_size st < current_size ob then None
      else emission_rule cfg (silence_start (classified cfg ob st)) (current_time ob)
             (chunk_duration (accumulated_frames (classified cfg ob st))))"

text \<open>
  The loop \<^verbatim>\<open>while self.is_recording: ...\<close> over the observations of its iterations.
  It returns at the first observation with \<^verbatim>\<open>self.is_recording\<close> false (nothing follows
  the loop in \<^verbatim>\<open>process_audio\<close>), and it ends when an exception has left
  \<^verbatim>\<open>process_chunk\<close>. The empty list is a run still in progress.
\<close>

fun process_audio ::
  "(nat \<Rightarrow> bool) \<Rightarrow> config \<Rightarrow> obs list \<Rightarrow> loop_state \<times> world \<Rightarrow> loop_state \<times> world" where
  "process_audio sp cfg [] s = s"
| "process_audio sp cfg (ob # obs) s =
     (if uncaught (snd s) \<noteq> None then s
      else if \<not> recording ob then s
      else process_audio sp cfg obs (tick sp cfg ob s))"

text \<open>
  The emissions of a run, in order: for each iteration that hands a chunk to
  \<^verbatim>\<open>process_chunk\<close>, the rule that fired and the chunk.
\<close>

fun emissions ::
  "(nat \<Rightarrow> bool) \<Rightarrow> config \<Rightarrow> obs list \<Rightarrow> loop_state \<times> world \<Rightarrow> (rule \<times> frame list) list" where
  "emissions sp cfg [] s = []"
| "emissions sp cfg (ob # obs) s =
     (if uncaught (snd s) \<noteq> None then []
      else if \<not> recording ob then []
      else (case tick_rule cfg ob (fst s) of
              None \<Rightarrow> []
            | Some r \<Rightarrow> [(r, accumulated_frames (classified cfg ob (fst s)))])
           @ emissions sp cfg obs (tick sp cfg ob s))"

text \<open>The frames a run of iterations slices off the buffer, from cursor \<open>n\<close> on.\<close>

fun appended :: "nat \<Rightarrow> obs list \<Rightarrow> frame list" where
  "appended n [] = []"
| "appended n (ob # obs) =
     (if n < current_size ob then drop n (frames ob) @ appended (current_size ob) obs
      else appended n obs)"

text \<open>
  A run of iterations from cursor \<open>n\<close> in which the loop is recording, every iteration
  finds new frames, and every batch is classified as \<open>silent\<close> says.
\<close>

fun batch_run :: "bool \<Rightarrow> config \<Rightarrow> nat \<Rightarrow> obs list \<Rightarrow> bool" where
  "batch_run silent cfg n [] = True"
| "batch_run silent cfg n (ob # obs) =
     (recording ob \<and> n < current_size ob \<and>
      detect_silence (concat (drop n (frames ob))) (threshold cfg) = silent \<and>
      batch_run silent cfg (current_size ob) obs)"

text \<open>
  Observations in which no frame arrives between the two reads of \<^verbatim>\<open>self.frames\<close>
  (lines 391 and 395), over a buffer that only grows from \<open>buf\<close>.
\<close>

fun atomic_run :: "frame list \<Rightarrow> obs list \<Rightarrow> bool" where
  "atomic_run buf [] = True"
| "atomic_run buf (ob # obs) =
     (prefix buf (frames ob) \<and> current_size ob = length (frames ob) \<and>
      atomic_run (frames ob) obs)"

section \<open>Example inputs\<close>

text \<open>
  Inputs for concrete runs: a whitespace class holding the space only, collaborators
  that report no speech, a loud and a quiet frame, and a loop observation while
  recording.
\<close>

definition ascii_space :: "nat \<Rightarrow> bool" where
  "ascii_space c = (c = 32)"

definition no_speech :: collaborators where
  "no_speech = \<lparr>wav_io = None, recognized = UnknownValueError\<rparr>"

definition loud_frame :: frame where
  "loud_frame = [1000, - 1000]"

definition quiet_frame :: frame where
  "quiet_frame = [3, - 3]"

definition observe :: "nat \<Rightarrow> frame list \<Rightarrow> real \<Rightarrow> obs" where
  "observe n buf t =
     \<lparr>recording = True, current_size = n, frames = buf, current_time = t,
      answers = no_speech\<rparr>"

text \<open>
  44 loud frames (1.02 s), then one quiet frame at 100.05 s and one more at 101.05 s.
\<close>

definition speech_then_silence :: "obs list" where
  "speech_then_silence =
     [observe 44 (replicate 44 loud_frame) 100,
      observe 45 (replicate 44 loud_frame @ [quiet_frame]) (2001 / 20),
      observe 46 (replicate 44 loud_frame @ [quiet_frame, quiet_frame]) (2021 / 20)]"

text \<open>The loop test that finds \<^verbatim>\<open>self.is_recording\<close> false.\<close>

definition stop :: "nat \<Rightarrow> frame list \<Rightarrow> real \<Rightarrow> obs" where
  "stop n buf t = (observe n buf t)\<lparr>recording := False\<rparr>"

text \<open>One loud frame is pending when recording stops.\<close>

definition stopped_early :: "obs list" where
  "stopped_early = [observe 1 [loud_frame] 100, stop 1 [loud_frame] (2001 / 20)]"

text \<open>44 loud frames and one quiet frame at 100.05 s: a silence run has begun.\<close>

definition speech_then_pause :: "obs list" where
  "speech_then_pause =
     [observe 44 (replicate 44 loud_frame) 100,
      observe 45 (replicate 44 loud_frame @ [quiet_frame]) (2001 / 20)]"

text \<open>
  430 loud frames (9.98 s), a quiet frame at 100.05 s that takes the chunk past 10 s, a
  quiet frame at 100.10 s, and 44 more quiet frames by 101.05 s.
\<close>

definition long_speech_then_silence :: "obs list" where
  "long_speech_then_silence =
     [observe 430 (replicate 430 loud_frame) 100,
      observe 431 (replicate 430 loud_frame @ replicate 1 quiet_frame) (2001 / 20),
      observe 432 (replicate 430 loud_frame @ replicate 2 quiet_frame) (1001 / 10),
      observe 476 (replicate 430 loud_frame @ replicate 46 quiet_frame) (2021 / 20)]"

text \<open>
  The audio callback appends the quiet frame after line 391 has read the length 1 and
  before line 395 slices the list; the next iteration sees both frames.
\<close>

definition frame_between_reads :: "obs list" where
  "frame_between_reads =
     [\<lparr>recording = True, current_size = 1, frames = [loud_frame, quiet_frame],
       current_time = 100, answers = no_speech\<rparr>,
      observe 2 [loud_frame, quiet_frame] (2001 / 20)]"


section \<open>Properties of the volume meter\<close>

lemma sint_range16: "- 32768 \<le> sint (x :: 16 word) \<and> sint x < 32768"
  using sint_ge [of x] sint_lt [of x] by simp

lemma sint_min16: "sint (x :: 16 word) = - 32768 \<Longrightarrow> x = - 32768"
proof -
  assume "sint x = - 32768"
  then have "sint x = sint (- 32768 :: 16 word)" by simp
  then show ?thesis by (rule signed_word_eqI)
qed

lemma sint_neg16: "x \<noteq> - 32768 \<Longrightarrow> sint (- x :: 16 word) = - sint x"
proof -
  assume "x \<noteq> - 32768"
  then have "sint x \<noteq> - 32768" using sint_min16 by blast
  with sint_range16 [of x] have "- 32768 \<le> - sint x \<and> - sint x < 32768" by arith
  then have "signed_take_bit 15 (- sint x) = - sint x"
    by (simp add: signed_take_bit_int_eq_self)
  then show ?thesis by (simp add: sint_word_ariths)
qed

lemma sint_np_abs: "x \<noteq> - 32768 \<Longrightarrow> sint (np_abs x) = \<bar>sint x\<bar>"
  by (simp add: np_abs_def sint_neg16)

text \<open>
  Away from the sample \<open>- 32768\<close> the meter is the mean of the absolute values and is
  not negative.
\<close>

lemma volume_mean_abs:
  assumes "data \<noteq> []" and "- 32768 \<notin> set data"
  shows "volume data = Some (real_of_int (\<Sum>x\<leftarrow>data. \<bar>sint x\<bar>) / real (length data))"
    and "\<exists>v. volume data = Some v \<and> 0 \<le> v"
proof -
  have "\<forall>x\<in>set data. sint (np_abs x) = \<bar>sint x\<bar>"
  proof
    fix x assume "x \<in> set data"
    with assms(2) have "x \<noteq> - 32768" by auto
    then show "sint (np_abs x) = \<bar>sint x\<bar>" by (rule sint_np_abs)
  qed
  then have m: "map (\<lambda>x. sint (np_abs x)) data = map (\<lambda>x. \<bar>sint x\<bar>) data"
    by simp
  have s: "(\<Sum>x\<leftarrow>data. sint (np_abs x)) = (\<Sum>x\<leftarrow>data. \<bar>sint x\<bar>)"
    by (simp only: m)
  show v: "volume data = Some (real_of_int (\<Sum>x\<leftarrow>data. \<bar>sint x\<bar>) / real (length data))"
    using assms(1) by (simp add: volume_def s)
  have "0 \<le> (\<Sum>x\<leftarrow>data. \<bar>sint x\<bar>)" by (rule sum_list_nonneg) auto
  then show "\<exists>v. volume data = Some v \<and> 0 \<le> v" using v by simp
qed

lemma detect_silence_iff:
  "detect_silence data thr \<longleftrightarrow> (\<exists>v. volume data = Some v \<and> v < thr)"
  by (simp add: detect_silence_def split: option.splits)

lemma volume_replicate:
  "0 < n \<Longrightarrow> volume (replicate n x) = Some (real_of_int (sint (np_abs x)))"
  by (simp add: volume_def sum_list_replicate)

text \<open>
  C9. The claim: the loudness of every frame is the mean of the absolute values of its
  samples and is not negative. On a frame whose 1024 samples are all \<open>- 32768\<close> (a
  signal clipped at the negative rail) \<^verbatim>\<open>np.abs\<close> wraps: the meter gives \<open>- 32768\<close>,
  where the mean of the absolute values is \<open>32768\<close>, and the loudest frame there is is
  classified silent.
\<close>

theorem volume_int16_min:
  "volume (replicate 1024 (- 32768)) = Some (- 32768) \<and>
   detect_silence (replicate 1024 (- 32768)) 200"
  by (simp add: detect_silence_def volume_replicate np_abs_def)

section \<open>Evaluating concrete runs\<close>

lemma volume_concat_replicate:
  assumes "0 < n" and "xs \<noteq> []"
  shows "volume (concat (replicate n xs)) = volume xs"
proof -
  have s: "sum_list (map f (concat (replicate n xs))) = int n * sum_list (map f xs)"
    for f :: "sample \<Rightarrow> int"
    by (induction n) (simp_all add: algebra_simps)
  have l: "length (concat (replicate n xs)) = n * length xs"
    by (induction n) simp_all
  have ne: "concat (replicate n xs) \<noteq> []" using assms by (cases n) simp_all
  show ?thesis using assms by (simp add: volume_def s l ne)
qed

lemma volume_loud: "volume loud_frame = Some 1000"
  by (simp add: volume_def loud_frame_def np_abs_def)

lemma volume_quiet: "volume quiet_frame = Some 3"
  by (simp add: volume_def quiet_frame_def np_abs_def)

lemma loud_batch: "0 < n \<Longrightarrow> detect_silence (concat (replicate n loud_frame)) 200 = False"
proof -
  assume "0 < n"
  moreover have "loud_frame \<noteq> []" by (simp add: loud_frame_def)
  ultimately have "volume (concat (replicate n loud_frame)) = Some 1000"
    by (simp add: volume_concat_replicate volume_loud)
  then show ?thesis by (simp add: detect_silence_def)
qed

lemma quiet_batch: "0 < n \<Longrightarrow> detect_silence (concat (replicate n quiet_frame)) 200 = True"
proof -
  assume "0 < n"
  moreover have "quiet_frame \<noteq> []" by (simp add: quiet_frame_def)
  ultimately have "volume (concat (replicate n quiet_frame)) = Some 3"
    by (simp add: volume_concat_replicate volume_quiet)
  then show ?thesis by (simp add: detect_silence_def)
qed

lemma loud_batch1: "detect_silence loud_frame 200 = False"
  by (simp add: detect_silence_def volume_loud)

lemma quiet_batch1: "detect_silence quiet_frame 200 = True"
  by (simp add: detect_silence_def volume_quiet)

lemmas tick_eval =
  tick_def Let_def classified_def batch_silent_def new_frames_def should_process_def
  emit_def process_chunk_def chunk_duration_def default_config_def observe_def
  initial_state_def initial_world_def no_speech_def loud_batch quiet_batch loud_batch1
  quiet_batch1

section \<open>One iteration\<close>

lemma should_process_rule:
  "should_process cfg ss now dur \<longleftrightarrow> emission_rule cfg ss now dur \<noteq> None"
  by (simp add: should_process_def emission_rule_def split: option.splits)

lemma process_chunk_handed: "handed (process_chunk sp col c w) = handed w @ [c]"
  by (simp add: process_chunk_def Let_def split: option.splits recognition.splits)

lemma classified_acc:
  "accumulated_frames (classified cfg ob st) = accumulated_frames st @ new_frames ob st"
  by (simp add: classified_def Let_def split: option.splits)

lemma classified_keeps:
  "is_processing (classified cfg ob st) = is_processing st"
  "last_process_size (classified cfg ob st) = last_process_size st"
  "is_silent (classified cfg ob st) = Some (batch_silent cfg ob st)"
  by (simp_all add: classified_def Let_def split: option.splits)

lemma classified_silence_start:
  "silence_start (classified cfg ob st) =
     (if batch_silent cfg ob st
      then (case silence_start st of None \<Rightarrow> Some (current_time ob) | Some t \<Rightarrow> Some t)
      else None)"
  by (simp add: classified_def Let_def split: option.splits)

lemma tick_idle:
  "is_processing st \<or> \<not> last_process_size st < current_size ob \<Longrightarrow>
   tick sp cfg ob (st, w) = (st, w)"
  by (auto simp: tick_def)

lemma tick_rule_idle:
  "is_processing st \<or> \<not> last_process_size st < current_size ob \<Longrightarrow>
   tick_rule cfg ob st = None"
  by (auto simp: tick_rule_def)

lemma tick_quiet:
  "\<not> is_processing st \<Longrightarrow> last_process_size st < current_size ob \<Longrightarrow>
   tick_rule cfg ob st = None \<Longrightarrow>
   tick sp cfg ob (st, w) = ((classified cfg ob st)\<lparr>last_process_size := current_size ob\<rparr>, w)"
  by (simp add: tick_def tick_rule_def should_process_rule)

lemma tick_emits:
  "\<not> is_processing st \<Longrightarrow> last_process_size st < current_size ob \<Longrightarrow>
   tick_rule cfg ob st = Some r \<Longrightarrow>
   tick sp cfg ob (st, w) =
     (let st1 = classified cfg ob st;
          w' = process_chunk sp (answers ob) (accumulated_frames st1) w
      in if uncaught w' \<noteq> None then (st1\<lparr>is_processing := True\<rparr>, w')
         else (st1\<lparr>accumulated_frames := [], silence_start := None, is_processing := False,
                   is_listening := False, last_process_size := current_size ob\<rparr>, w'))"
  by (simp add: tick_def tick_rule_def should_process_rule emit_def Let_def)

lemma tick_handed:
  "handed (snd (tick sp cfg ob (st, w))) =
     handed w @ (case tick_rule cfg ob st of None \<Rightarrow> []
                 | Some r \<Rightarrow> [accumulated_frames (classified cfg ob st)])"
proof (cases "is_processing st \<or> \<not> last_process_size st < current_size ob")
  case True
  then show ?thesis by (simp add: tick_idle tick_rule_idle)
next
  case False
  then show ?thesis
    by (cases "tick_rule cfg ob st")
       (simp_all add: tick_quiet tick_emits Let_def process_chunk_handed)
qed

section \<open>Runs of the loop\<close>

lemma handed_emissions:
  "handed (snd (process_audio sp cfg obs s)) = handed (snd s) @ map snd (emissions sp cfg obs s)"
proof (induction obs arbitrary: s)
  case Nil
  then show ?case by simp
next
  case (Cons ob obs)
  obtain st w where s: "s = (st, w)" by (cases s)
  show ?case using Cons.IH [of "tick sp cfg ob s"]
    by (simp add: s tick_handed split: option.splits)
qed

lemma silence_rule_duration:
  "tick_rule cfg ob st = Some SilenceRule \<Longrightarrow>
   min_chunk_duration cfg \<le> chunk_duration (accumulated_frames (classified cfg ob st))"
  by (simp add: tick_rule_def emission_rule_def split: if_splits option.splits)

lemma emissions_silence_rule:
  "(SilenceRule, chunk) \<in> set (emissions sp cfg obs s) \<Longrightarrow>
   min_chunk_duration cfg \<le> chunk_duration chunk"
proof (induction obs arbitrary: s)
  case Nil
  then show ?case by simp
next
  case (Cons ob obs)
  show ?case
  proof (cases "(SilenceRule, chunk) \<in> set (emissions sp cfg obs (tick sp cfg ob s))")
    case True
    then show ?thesis by (rule Cons.IH)
  next
    case False
    with Cons.prems have "tick_rule cfg ob (fst s) = Some SilenceRule"
      and "chunk = accumulated_frames (classified cfg ob (fst s))"
      by (auto split: if_splits option.splits)
    then show ?thesis by (simp add: silence_rule_duration)
  qed
qed

lemma handed_initial: "handed initial_world = []"
  by (simp add: initial_world_def)

lemma speech_then_silence_emissions:
  "emissions ascii_space default_config speech_then_silence (initial_state 99, initial_world) =
     [(SilenceRule, replicate 44 loud_frame @ [quiet_frame, quiet_frame])]"
  by (simp add: speech_then_silence_def tick_rule_def emission_rule_def tick_eval)

text \<open>
  C6. The chunks handed to \<^verbatim>\<open>process_chunk\<close> during a run are those of its emissions,
  in order, and every chunk emitted by the silence rule has a duration
  \<^verbatim>\<open>len * 1024 / 44100\<close> of at least \<^verbatim>\<open>min_chunk_duration\<close>.
\<close>

theorem silence_emission_min_duration:
  "handed (snd (process_audio sp cfg obs s)) =
     handed (snd s) @ map snd (emissions sp cfg obs s) \<and>
   (\<forall>e \<in> set (emissions sp cfg obs s).
      fst e = SilenceRule \<longrightarrow> min_chunk_duration cfg \<le> chunk_duration (snd e))"
proof
  show "handed (snd (process_audio sp cfg obs s)) =
     handed (snd s) @ map snd (emissions sp cfg obs s)"
    by (rule handed_emissions)
  show "\<forall>e \<in> set (emissions sp cfg obs s).
      fst e = SilenceRule \<longrightarrow> min_chunk_duration cfg \<le> chunk_duration (snd e)"
  proof (intro ballI impI)
    fix e assume "e \<in> set (emissions sp cfg obs s)" and "fst e = SilenceRule"
    then have "(SilenceRule, snd e) \<in> set (emissions sp cfg obs s)"
      by (metis prod.collapse)
    then show "min_chunk_duration cfg \<le> chunk_duration (snd e)"
      by (rule emissions_silence_rule)
  qed
qed

theorem silence_emission_min_duration_witness:
  "(SilenceRule, replicate 44 loud_frame @ [quiet_frame, quiet_frame]) \<in>
     set (emissions ascii_space default_config speech_then_silence
            (initial_state 99, initial_world)) \<and>
   min_chunk_duration default_config \<le>
     chunk_duration (replicate 44 loud_frame @ [quiet_frame, quiet_frame]) \<and>
   handed (snd (process_audio ascii_space default_config speech_then_silence
                  (initial_state 99, initial_world))) =
     [replicate 44 loud_frame @ [quiet_frame, quiet_frame]]"
proof -
  note run = silence_emission_min_duration
    [of ascii_space default_config speech_then_silence "(initial_state 99, initial_world)"]
  note e = speech_then_silence_emissions
  have "min_chunk_duration default_config \<le>
     chunk_duration (replicate 44 loud_frame @ [quiet_frame, quiet_frame])"
    using run by (simp add: e)
  then show ?thesis using run by (simp add: e handed_initial)
qed


section \<open>Stopping\<close>

text \<open>
  C1 as the code has it. \<^verbatim>\<open>stop_recording\<close> only sets \<^verbatim>\<open>self.is_recording\<close> to false;
  \<^verbatim>\<open>process_audio\<close> returns at the next loop test and has no statement after the loop.
  So the iteration that finds \<^verbatim>\<open>self.is_recording\<close> false, and whatever is observed
  after it, changes neither the chunks handed to \<^verbatim>\<open>process_chunk\<close> nor the pending
  chunk: stopping emits nothing, whether frames are pending or not.
\<close>

theorem stop_emits_nothing:
  "\<not> recording ob \<Longrightarrow> process_audio sp cfg (pre @ ob # rest) s = process_audio sp cfg pre s"
  by (induction pre arbitrary: s) simp_all

theorem stop_emits_nothing_witness:
  "\<not> recording (stop 1 [loud_frame] (2001 / 20)) \<and>
   process_audio ascii_space default_config stopped_early (initial_state 99, initial_world) =
     process_audio ascii_space default_config [observe 1 [loud_frame] 100]
       (initial_state 99, initial_world)"
proof -
  have r: "\<not> recording (stop 1 [loud_frame] (2001 / 20))"
    by (simp add: stop_def observe_def)
  show ?thesis
    using r stop_emits_nothing [OF r, of ascii_space default_config
        "[observe 1 [loud_frame] 100]" "[]" "(initial_state 99, initial_world)"]
    by (simp add: stopped_early_def)
qed

text \<open>
  C1 as stated fails: one loud frame is pending when recording stops, and no chunk is
  handed to \<^verbatim>\<open>process_chunk\<close>.
\<close>

theorem stop_counterexample:
  "accumulated_frames (fst (process_audio ascii_space default_config stopped_early
       (initial_state 99, initial_world))) = [loud_frame] \<and>
   handed (snd (process_audio ascii_space default_config stopped_early
       (initial_state 99, initial_world))) = []"
  by (simp add: stopped_early_def stop_def tick_eval)

section \<open>Transcription outcomes\<close>

lemma process_chunk_returns:
  "wav_io col = None \<Longrightarrow> uncaught (process_chunk sp col chunk w) = uncaught w"
  by (simp add: process_chunk_def Let_def split: recognition.splits)

lemma tick_survives:
  assumes "uncaught w = None" and "wav_io (answers ob) = None"
  shows "uncaught (snd (tick sp cfg ob (st, w))) = None \<and>
         is_processing (fst (tick sp cfg ob (st, w))) = is_processing st"
proof (cases "is_processing st \<or> \<not> last_process_size st < current_size ob")
  case True
  then show ?thesis using assms by (simp add: tick_idle)
next
  case False
  then show ?thesis using assms
    by (cases "tick_rule cfg ob st")
       (simp_all add: tick_quiet tick_emits Let_def process_chunk_returns classified_keeps)
qed

text \<open>
  C8 as the code has it. For a non-empty chunk whose wav file was written and read back,
  \<^verbatim>\<open>recognize_google\<close> is called exactly once (no retry) and no exception leaves
  \<^verbatim>\<open>process_chunk\<close>. On \<^verbatim>\<open>UnknownValueError\<close> nothing is enqueued and nothing printed;
  on any other exception the error is printed and nothing is enqueued; on a text that is
  not blank, the text with its surrounding whitespace stripped (\<^verbatim>\<open>text.strip()\<close>) is
  appended to the queue once. The loop iteration that made the call completes, so the
  session continues.
\<close>

theorem process_chunk_recognition:
  assumes "chunk \<noteq> []" and "wav_io col = None"
  shows "recognize_calls (process_chunk sp col chunk w) = recognize_calls w + 1 \<and>
     uncaught (process_chunk sp col chunk w) = uncaught w \<and>
     (case recognized col of
        UnknownValueError \<Rightarrow>
          text_queue (process_chunk sp col chunk w) = text_queue w \<and>
          printed (process_chunk sp col chunk w) = printed w
      | OtherError e \<Rightarrow>
          text_queue (process_chunk sp col chunk w) = text_queue w \<and>
          printed (process_chunk sp col chunk w) = printed w @ [RecognitionFailed e]
      | Text t \<Rightarrow>
          if strip sp t \<noteq> []
          then text_queue (process_chunk sp col chunk w) = text_queue w @ [strip sp t]
          else text_queue (process_chunk sp col chunk w) = text_queue w) \<and>
     (answers ob = col \<and> uncaught w = None \<longrightarrow>
        uncaught (snd (tick sp cfg ob (st, w))) = None \<and>
        is_processing (fst (tick sp cfg ob (st, w))) = is_processing st)"
proof -
  have "answers ob = col \<and> uncaught w = None \<longrightarrow>
        uncaught (snd (tick sp cfg ob (st, w))) = None \<and>
        is_processing (fst (tick sp cfg ob (st, w))) = is_processing st"
    using assms(2) tick_survives by blast
  moreover have "recognize_calls (process_chunk sp col chunk w) = recognize_calls w + 1"
    using assms by (simp add: process_chunk_def Let_def split: recognition.splits)
  moreover have "uncaught (process_chunk sp col chunk w) = uncaught w"
    using assms(2) by (rule process_chunk_returns)
  moreover have "(case recognized col of
        UnknownValueError \<Rightarrow>
          text_queue (process_chunk sp col chunk w) = text_queue w \<and>
          printed (process_chunk sp col chunk w) = printed w
      | OtherError e \<Rightarrow>
          text_queue (process_chunk sp col chunk w) = text_queue w \<and>
          printed (process_chunk sp col chunk w) = printed w @ [RecognitionFailed e]
      | Text t \<Rightarrow>
          if strip sp t \<noteq> []
          then text_queue (process_chunk sp col chunk w) = text_queue w @ [strip sp t]
          else text_queue (process_chunk sp col chunk w) = text_queue w)"
    using assms by (simp add: process_chunk_def Let_def split: recognition.splits)
  ultimately show ?thesis by blast
qed

theorem process_chunk_recognition_witness:
  "text_queue (process_chunk ascii_space \<lparr>wav_io = None, recognized = Text [32, 104, 105]\<rparr>
       [loud_frame] initial_world) = [[104, 105]] \<and>
   recognize_calls (process_chunk ascii_space
       \<lparr>wav_io = None, recognized = Text [32, 104, 105]\<rparr> [loud_frame] initial_world) = 1 \<and>
   uncaught (process_chunk ascii_space \<lparr>wav_io = None, recognized = Text [32, 104, 105]\<rparr>
       [loud_frame] initial_world) = None \<and>
   printed (process_chunk ascii_space \<lparr>wav_io = None, recognized = OtherError ''timeout''\<rparr>
       [loud_frame] initial_world) = [RecognitionFailed ''timeout''] \<and>
   text_queue (process_chunk ascii_space \<lparr>wav_io = None, recognized = OtherError ''timeout''\<rparr>
       [loud_frame] initial_world) = []"
proof -
  have c: "[loud_frame] \<noteq> []" by simp
  have s: "strip ascii_space [32, 104, 105] = [104, 105]"
    by (simp add: strip_def ascii_space_def)
  note t = process_chunk_recognition [OF c, of "\<lparr>wav_io = None, recognized = Text [32, 104, 105]\<rparr>"
      ascii_space initial_world "observe 1 [loud_frame] 100" default_config "initial_state 99"]
  note e = process_chunk_recognition [OF c, of "\<lparr>wav_io = None, recognized = OtherError ''timeout''\<rparr>"
      ascii_space initial_world "observe 1 [loud_frame] 100" default_config "initial_state 99"]
  show ?thesis using t e by (simp add: s initial_world_def)
qed

text \<open>
  C8 as stated fails where it says that the recognised text is what is enqueued: for
  the text \<open>" a"\<close> the queue receives \<open>"a"\<close>.
\<close>

theorem enqueued_text_counterexample:
  "text_queue (process_chunk ascii_space \<lparr>wav_io = None, recognized = Text [32, 97]\<rparr>
       [loud_frame] initial_world) = [[97]] \<and>
   [32, 97] \<notin> set (text_queue (process_chunk ascii_space
       \<lparr>wav_io = None, recognized = Text [32, 97]\<rparr> [loud_frame] initial_world))"
  by (simp add: process_chunk_def strip_def ascii_space_def initial_world_def)

section \<open>The emission check of one iteration\<close>

text \<open>
  C5 as the code has it. In an iteration that is not blocked by the processing guard
  and finds new frames, the check runs once, on the pending chunk with all new frames
  appended and the silence tracker updated for the batch: at most one chunk is handed
  over, and it holds all of them. An iteration that finds no new frames does nothing:
  the check is inside \<^verbatim>\<open>if current_size > last_process_size\<close>.
\<close>

theorem emission_check_once:
  assumes "\<not> is_processing st"
  shows "(last_process_size st < current_size ob \<longrightarrow>
           handed (snd (tick sp cfg ob (st, w))) =
             (if should_process cfg (silence_start (classified cfg ob st)) (current_time ob)
                   (chunk_duration (accumulated_frames st @ new_frames ob st))
              then handed w @ [accumulated_frames st @ new_frames ob st]
              else handed w)) \<and>
         (\<not> last_process_size st < current_size ob \<longrightarrow> tick sp cfg ob (st, w) = (st, w))"
  using assms
  by (simp add: tick_idle tick_handed tick_rule_def should_process_rule classified_acc
      split: option.splits)

lemma speech_then_pause_run:
  "process_audio ascii_space default_config speech_then_pause (initial_state 99, initial_world) =
     (\<lparr>silence_start = Some (2001 / 20), last_process_size = 45,
       accumulated_frames = replicate 44 loud_frame @ [quiet_frame],
       last_active_time = 100, is_processing = False, is_listening = False,
       is_silent = Some True\<rparr>, initial_world)"
  by (simp add: speech_then_pause_def tick_eval)

lemma speech_then_silence_run:
  "process_audio ascii_space default_config speech_then_silence (initial_state 99, initial_world) =
     (\<lparr>silence_start = None, last_process_size = 46, accumulated_frames = [],
       last_active_time = 100, is_processing = False, is_listening = False,
       is_silent = Some True\<rparr>,
      initial_world\<lparr>recognize_calls := 1,
        handed := [replicate 44 loud_frame @ [quiet_frame, quiet_frame]]\<rparr>)"
  by (simp add: speech_then_silence_def tick_eval)

theorem emission_check_once_witness:
  "handed (snd (tick ascii_space default_config
       (observe 46 (replicate 44 loud_frame @ [quiet_frame, quiet_frame]) (2021 / 20))
       (process_audio ascii_space default_config speech_then_pause
          (initial_state 99, initial_world)))) =
     [replicate 44 loud_frame @ [quiet_frame, quiet_frame]] \<and>
   tick ascii_space default_config
       (observe 45 (replicate 44 loud_frame @ [quiet_frame]) (2021 / 20))
       (process_audio ascii_space default_config speech_then_pause
          (initial_state 99, initial_world)) =
     process_audio ascii_space default_config speech_then_pause
          (initial_state 99, initial_world)"
proof -
  let ?st = "\<lparr>silence_start = Some (2001 / 20), last_process_size = 45,
       accumulated_frames = replicate 44 loud_frame @ [quiet_frame],
       last_active_time = 100, is_processing = False, is_listening = False,
       is_silent = Some True\<rparr>"
  have p: "\<not> is_processing ?st" by simp
  note a = emission_check_once [OF p, of
      "observe 46 (replicate 44 loud_frame @ [quiet_frame, quiet_frame]) (2021 / 20)"
      ascii_space default_config initial_world]
  note b = emission_check_once [OF p, of
      "observe 45 (replicate 44 loud_frame @ [quiet_frame]) (2021 / 20)"
      ascii_space default_config initial_world]
  have "handed (snd (tick ascii_space default_config
       (observe 46 (replicate 44 loud_frame @ [quiet_frame, quiet_frame]) (2021 / 20))
       (?st, initial_world))) = [replicate 44 loud_frame @ [quiet_frame, quiet_frame]]"
    using a
    by (simp add: observe_def classified_def batch_silent_def new_frames_def Let_def
        quiet_batch1 should_process_def default_config_def chunk_duration_def handed_initial)
  moreover have "tick ascii_space default_config
       (observe 45 (replicate 44 loud_frame @ [quiet_frame]) (2021 / 20))
       (?st, initial_world) = (?st, initial_world)"
    using b by (simp add: observe_def)
  ultimately show ?thesis by (simp add: speech_then_pause_run)
qed

text \<open>
  C5 as stated fails on an iteration without new frames: after 44 loud frames and a
  quiet one at 100.05 s, the iteration at 101.05 s finds the buffer unchanged; the check
  would fire on the state it finds (silence for 1 s, chunk of 1.04 s), but it is not
  evaluated and nothing is handed over.
\<close>

theorem no_new_frames_counterexample:
  "tick ascii_space default_config
     (observe 45 (replicate 44 loud_frame @ [quiet_frame]) (2021 / 20))
     (process_audio ascii_space default_config speech_then_pause
        (initial_state 99, initial_world)) =
     process_audio ascii_space default_config speech_then_pause
        (initial_state 99, initial_world) \<and>
   handed (snd (process_audio ascii_space default_config speech_then_pause
        (initial_state 99, initial_world))) = [] \<and>
   should_process default_config
     (silence_start (fst (process_audio ascii_space default_config speech_then_pause
        (initial_state 99, initial_world))))
     (2021 / 20)
     (chunk_duration (accumulated_frames (fst (process_audio ascii_space default_config
        speech_then_pause (initial_state 99, initial_world)))))"
  by (simp add: speech_then_pause_run handed_initial)
     (simp add: tick_def observe_def should_process_def default_config_def chunk_duration_def)

section \<open>The silence marker\<close>

lemma marker_step:
  "silence_start st \<noteq> None \<longrightarrow> is_silent st = Some True \<Longrightarrow>
   silence_start (fst (tick sp cfg ob (st, w))) \<noteq> None \<longrightarrow>
   is_silent (fst (tick sp cfg ob (st, w))) = Some True"
proof (cases "is_processing st \<or> \<not> last_process_size st < current_size ob")
  case True
  assume "silence_start st \<noteq> None \<longrightarrow> is_silent st = Some True"
  with True show ?thesis by (simp add: tick_idle)
next
  case False
  then show ?thesis
    by (cases "tick_rule cfg ob st")
       (simp_all add: tick_quiet tick_emits Let_def classified_keeps classified_silence_start)
qed

lemma marker_run:
  "silence_start (fst s) \<noteq> None \<longrightarrow> is_silent (fst s) = Some True \<Longrightarrow>
   silence_start (fst (process_audio sp cfg obs s)) \<noteq> None \<longrightarrow>
   is_silent (fst (process_audio sp cfg obs s)) = Some True"
proof (induction obs arbitrary: s)
  case Nil
  then show ?case by simp
next
  case (Cons ob obs)
  obtain st w where s: "s = (st, w)" by (cases s)
  have "silence_start (fst (tick sp cfg ob s)) \<noteq> None \<longrightarrow>
        is_silent (fst (tick sp cfg ob s)) = Some True"
    using Cons.prems marker_step [of st sp cfg ob w] by (simp add: s)
  then have "silence_start (fst (process_audio sp cfg obs (tick sp cfg ob s))) \<noteq> None \<longrightarrow>
    is_silent (fst (process_audio sp cfg obs (tick sp cfg ob s))) = Some True"
    by (rule Cons.IH)
  then show ?case using Cons.prems by simp
qed

text \<open>
  C4 as the code has it. After an iteration that processed new frames, the marker
  \<^verbatim>\<open>silence_start\<close> is set if and only if the batch was classified silent and no chunk
  was emitted in that iteration. So, throughout a run, a set marker implies that the
  most recently classified batch was silent; the converse fails, because an emission
  clears the marker in the middle of a silence run.
\<close>

theorem silence_marker:
  "(\<not> is_processing st \<and> last_process_size st < current_size ob \<and>
    uncaught (snd (tick sp cfg ob (st, w))) = None \<longrightarrow>
      (silence_start (fst (tick sp cfg ob (st, w))) \<noteq> None \<longleftrightarrow>
       batch_silent cfg ob st \<and> tick_rule cfg ob st = None)) \<and>
   (silence_start (fst (process_audio sp cfg obs (initial_state t0, initial_world))) \<noteq> None \<longrightarrow>
      is_silent (fst (process_audio sp cfg obs (initial_state t0, initial_world))) = Some True)"
proof
  show "\<not> is_processing st \<and> last_process_size st < current_size ob \<and>
    uncaught (snd (tick sp cfg ob (st, w))) = None \<longrightarrow>
      (silence_start (fst (tick sp cfg ob (st, w))) \<noteq> None \<longleftrightarrow>
       batch_silent cfg ob st \<and> tick_rule cfg ob st = None)"
    by (cases "tick_rule cfg ob st")
       (auto simp: tick_quiet tick_emits Let_def classified_silence_start
          split: if_splits option.splits)
  show "silence_start (fst (process_audio sp cfg obs (initial_state t0, initial_world))) \<noteq> None \<longrightarrow>
      is_silent (fst (process_audio sp cfg obs (initial_state t0, initial_world))) = Some True"
    by (rule marker_run) (simp add: initial_state_def)
qed

theorem silence_marker_witness:
  "silence_start (fst (tick ascii_space default_config
       (observe 1 [quiet_frame] 100) (initial_state 99, initial_world))) = Some 100 \<and>
   batch_silent default_config (observe 1 [quiet_frame] 100) (initial_state 99) \<and>
   tick_rule default_config (observe 1 [quiet_frame] 100) (initial_state 99) = None \<and>
   silence_start (fst (process_audio ascii_space default_config speech_then_pause
       (initial_state 99, initial_world))) = Some (2001 / 20) \<and>
   is_silent (fst (process_audio ascii_space default_config speech_then_pause
       (initial_state 99, initial_world))) = Some True"
proof -
  note m = silence_marker [of "initial_state 99" "observe 1 [quiet_frame] 100" ascii_space
      default_config initial_world speech_then_pause 99]
  have t: "tick ascii_space default_config (observe 1 [quiet_frame] 100)
      (initial_state 99, initial_world) =
     (\<lparr>silence_start = Some 100, last_process_size = 1, accumulated_frames = [quiet_frame],
       last_active_time = 99, is_processing = False, is_listening = False,
       is_silent = Some True\<rparr>, initial_world)"
    by (simp add: tick_eval)
  have h: "\<not> is_processing (initial_state 99) \<and>
     last_process_size (initial_state 99) < current_size (observe 1 [quiet_frame] 100) \<and>
     uncaught (snd (tick ascii_space default_config (observe 1 [quiet_frame] 100)
       (initial_state 99, initial_world))) = None"
    unfolding t by (simp add: initial_state_def observe_def initial_world_def)
  from m h have "silence_start (fst (tick ascii_space default_config
       (observe 1 [quiet_frame] 100) (initial_state 99, initial_world))) \<noteq> None \<longleftrightarrow>
     batch_silent default_config (observe 1 [quiet_frame] 100) (initial_state 99) \<and>
     tick_rule default_config (observe 1 [quiet_frame] 100) (initial_state 99) = None"
    by blast
  then have "batch_silent default_config (observe 1 [quiet_frame] 100) (initial_state 99) \<and>
     tick_rule default_config (observe 1 [quiet_frame] 100) (initial_state 99) = None"
    unfolding t by simp
  moreover have "is_silent (fst (process_audio ascii_space default_config speech_then_pause
       (initial_state 99, initial_world))) = Some True"
    using m by (simp add: speech_then_pause_run)
  ultimately show ?thesis unfolding t speech_then_pause_run by simp
qed

text \<open>
  C4 as stated fails after a silence-triggered emission: the last batch of the run was
  classified silent, and the marker is clear.
\<close>

theorem silence_marker_counterexample:
  "is_silent (fst (process_audio ascii_space default_config speech_then_silence
       (initial_state 99, initial_world))) = Some True \<and>
   silence_start (fst (process_audio ascii_space default_config speech_then_silence
       (initial_state 99, initial_world))) = None"
  by (simp add: speech_then_silence_run)


section \<open>Composing runs\<close>

lemma process_audio_dead:
  "uncaught (snd s) \<noteq> None \<Longrightarrow> process_audio sp cfg obs s = s"
  by (cases obs) simp_all

lemma process_audio_append:
  "\<forall>b \<in> set obs. recording b \<Longrightarrow>
   process_audio sp cfg (obs @ rest) s = process_audio sp cfg rest (process_audio sp cfg obs s)"
proof (induction obs arbitrary: s)
  case Nil
  then show ?case by simp
next
  case (Cons ob obs)
  then show ?case by (simp add: process_audio_dead)
qed

lemma batch_run_recording: "batch_run sil cfg n obs \<Longrightarrow> \<forall>b \<in> set obs. recording b"
  by (induction obs arbitrary: n) auto

lemma batch_run_append:
  "batch_run sil cfg n (obs @ rest) \<longleftrightarrow>
   batch_run sil cfg n obs \<and> batch_run sil cfg (if obs = [] then n else current_size (last obs)) rest"
  by (induction obs arbitrary: n) auto

lemma appended_append:
  "batch_run sil cfg n obs \<Longrightarrow>
   appended n (obs @ rest) = appended n obs @ appended (if obs = [] then n else current_size (last obs)) rest"
  by (induction obs arbitrary: n) auto

lemma chunk_duration_mono: "chunk_duration xs \<le> chunk_duration (xs @ ys)"
  by (simp add: chunk_duration_def divide_right_mono)

lemmas run_eval =
  observe_def default_config_def chunk_duration_def initial_state_def initial_world_def
  new_frames_def loud_batch quiet_batch loud_batch1 quiet_batch1

section \<open>What an emission resets\<close>

lemma marker_times_step:
  "silence_start st = None \<or> silence_start st \<in> Some ` T \<Longrightarrow>
   silence_start (fst (tick sp cfg ob (st, w))) = None \<or>
   silence_start (fst (tick sp cfg ob (st, w))) \<in> Some ` insert (current_time ob) T"
proof (cases "is_processing st \<or> \<not> last_process_size st < current_size ob")
  case True
  assume "silence_start st = None \<or> silence_start st \<in> Some ` T"
  with True show ?thesis by (auto simp: tick_idle)
next
  case False
  assume a: "silence_start st = None \<or> silence_start st \<in> Some ` T"
  have c: "silence_start (classified cfg ob st) = None \<or>
     silence_start (classified cfg ob st) \<in> Some ` insert (current_time ob) T"
    using a by (auto simp: classified_silence_start split: option.splits)
  show ?thesis using False c
    by (cases "tick_rule cfg ob st") (auto simp: tick_quiet tick_emits Let_def)
qed

lemma marker_times_run:
  "silence_start (fst s) = None \<or> silence_start (fst s) \<in> Some ` T \<Longrightarrow>
   silence_start (fst (process_audio sp cfg obs s)) = None \<or>
   silence_start (fst (process_audio sp cfg obs s)) \<in> Some ` (T \<union> current_time ` set obs)"
proof (induction obs arbitrary: s T)
  case Nil
  then show ?case by simp
next
  case (Cons ob obs)
  obtain st w where s: "s = (st, w)" by (cases s)
  show ?case
  proof (cases "uncaught (snd s) \<noteq> None \<or> \<not> recording ob")
    case True
    then have "process_audio sp cfg (ob # obs) s = s" by auto
    then show ?thesis using Cons.prems by auto
  next
    case False
    have "silence_start (fst (tick sp cfg ob s)) = None \<or>
       silence_start (fst (tick sp cfg ob s)) \<in> Some ` insert (current_time ob) T"
      using Cons.prems marker_times_step [of st T sp cfg ob w] by (simp add: s)
    from Cons.IH [OF this] show ?thesis using False by auto
  qed
qed

text \<open>
  C7. An iteration that emits and whose hand-off returns leaves the pending chunk empty
  and the marker \<^verbatim>\<open>silence_start\<close> clear. An iteration that does not emit never shortens
  the pending chunk: it keeps it or appends to it. And from a state with the marker
  clear, as every emission leaves it, the silence rule can fire again only on a marker
  that was set at one of the later iterations, at least \<^verbatim>\<open>min_silence_duration\<close>
  before the iteration that fires.
\<close>

theorem emission_resets:
  "(tick_rule cfg ob st \<noteq> None \<and> uncaught (snd (tick sp cfg ob (st, w))) = None \<longrightarrow>
      accumulated_frames (fst (tick sp cfg ob (st, w))) = [] \<and>
      silence_start (fst (tick sp cfg ob (st, w))) = None) \<and>
   (tick_rule cfg ob st = None \<longrightarrow>
      prefix (accumulated_frames st) (accumulated_frames (fst (tick sp cfg ob (st, w))))) \<and>
   (silence_start st = None \<and>
    tick_rule cfg ob' (fst (process_audio sp cfg obs (st, w))) = Some SilenceRule \<longrightarrow>
      (\<exists>b \<in> set (obs @ [ob']).
         silence_start (classified cfg ob' (fst (process_audio sp cfg obs (st, w)))) =
           Some (current_time b) \<and>
         min_silence_duration cfg \<le> current_time ob' - current_time b))"
proof (intro conjI impI)
  assume a: "tick_rule cfg ob st \<noteq> None \<and> uncaught (snd (tick sp cfg ob (st, w))) = None"
  then obtain r where r: "tick_rule cfg ob st = Some r" by auto
  then have g: "\<not> is_processing st" "last_process_size st < current_size ob"
    by (auto simp: tick_rule_def split: if_splits)
  show "accumulated_frames (fst (tick sp cfg ob (st, w))) = []"
    using a by (simp add: tick_emits [OF g r] Let_def split: if_splits)
  show "silence_start (fst (tick sp cfg ob (st, w))) = None"
    using a by (simp add: tick_emits [OF g r] Let_def split: if_splits)
next
  assume n: "tick_rule cfg ob st = None"
  show "prefix (accumulated_frames st) (accumulated_frames (fst (tick sp cfg ob (st, w))))"
  proof (cases "is_processing st \<or> \<not> last_process_size st < current_size ob")
    case True
    then show ?thesis by (simp add: tick_idle)
  next
    case False
    then show ?thesis using n by (simp add: tick_quiet classified_acc)
  qed
next
  let ?st1 = "fst (process_audio sp cfg obs (st, w))"
  assume a: "silence_start st = None \<and> tick_rule cfg ob' ?st1 = Some SilenceRule"
  then obtain t where t: "silence_start (classified cfg ob' ?st1) = Some t"
    and d: "min_silence_duration cfg \<le> current_time ob' - t"
    by (auto simp: tick_rule_def emission_rule_def split: if_splits option.splits)
  have "silence_start ?st1 = None \<or> silence_start ?st1 \<in> Some ` ({} \<union> current_time ` set obs)"
    using a marker_times_run [of "(st, w)" "{}" sp cfg obs] by simp
  then have "t \<in> current_time ` set (obs @ [ob'])"
    using t by (auto simp: classified_silence_start split: if_splits option.splits)
  then obtain o' where "o' \<in> set (obs @ [ob'])" and "current_time o' = t" by auto
  then show "\<exists>b \<in> set (obs @ [ob']).
         silence_start (classified cfg ob' ?st1) = Some (current_time b) \<and>
         min_silence_duration cfg \<le> current_time ob' - current_time b"
    using t d by auto
qed

theorem emission_resets_witness:
  "accumulated_frames (fst (tick ascii_space default_config
       (observe 431 (replicate 431 loud_frame) 100) (initial_state 99, initial_world))) = [] \<and>
   silence_start (fst (tick ascii_space default_config
       (observe 431 (replicate 431 loud_frame) 100) (initial_state 99, initial_world))) = None \<and>
   prefix (accumulated_frames (initial_state 99))
     (accumulated_frames (fst (tick ascii_space default_config
       (observe 430 (replicate 430 loud_frame) 100) (initial_state 99, initial_world)))) \<and>
   (\<exists>b \<in> set (speech_then_pause @
        [observe 46 (replicate 44 loud_frame @ [quiet_frame, quiet_frame]) (2021 / 20)]).
      silence_start (classified default_config
        (observe 46 (replicate 44 loud_frame @ [quiet_frame, quiet_frame]) (2021 / 20))
        (fst (process_audio ascii_space default_config speech_then_pause
           (initial_state 99, initial_world)))) = Some (current_time b) \<and>
      min_silence_duration default_config \<le>
        current_time (observe 46 (replicate 44 loud_frame @ [quiet_frame, quiet_frame])
          (2021 / 20)) - current_time b)"
proof -
  let ?cut = "observe 431 (replicate 431 loud_frame) 100"
  let ?grow = "observe 430 (replicate 430 loud_frame) 100"
  let ?o3 = "observe 46 (replicate 44 loud_frame @ [quiet_frame, quiet_frame]) (2021 / 20)"
  note a = emission_resets [of default_config ?cut "initial_state 99" ascii_space
      initial_world ?o3 speech_then_pause]
  note b = emission_resets [of default_config ?grow "initial_state 99" ascii_space
      initial_world ?o3 speech_then_pause]
  have t: "tick ascii_space default_config ?cut (initial_state 99, initial_world) =
     (\<lparr>silence_start = None, last_process_size = 431, accumulated_frames = [],
       last_active_time = 100, is_processing = False, is_listening = False,
       is_silent = Some False\<rparr>,
      initial_world\<lparr>recognize_calls := 1, handed := [replicate 431 loud_frame]\<rparr>)"
    by (simp add: tick_eval)
  have h1: "tick_rule default_config ?cut (initial_state 99) \<noteq> None \<and>
      uncaught (snd (tick ascii_space default_config ?cut
        (initial_state 99, initial_world))) = None"
    unfolding t
    by (simp add: tick_rule_def emission_rule_def classified_def batch_silent_def Let_def
        run_eval)
  have h2: "tick_rule default_config ?grow (initial_state 99) = None"
    by (simp add: tick_rule_def emission_rule_def classified_def batch_silent_def Let_def
        run_eval)
  have h3: "silence_start (initial_state 99) = None \<and>
      tick_rule default_config ?o3 (fst (process_audio ascii_space default_config
        speech_then_pause (initial_state 99, initial_world))) = Some SilenceRule"
    unfolding speech_then_pause_run
    by (simp add: tick_rule_def emission_rule_def classified_def batch_silent_def Let_def
        run_eval)
  note p1 = a [THEN conjunct1, THEN mp, OF h1]
  note p2 = b [THEN conjunct2, THEN conjunct1, THEN mp, OF h2]
  note p3 = a [THEN conjunct2, THEN conjunct2, THEN mp, OF h3]
  show ?thesis using p1 p2 p3 by blast
qed

section \<open>The force-cut\<close>

lemma batch_tick_rule:
  assumes "\<not> is_processing st" and "last_process_size st < current_size ob"
    and "detect_silence (concat (drop (last_process_size st) (frames ob))) (threshold cfg) = sil"
  shows "tick_rule cfg ob st =
     emission_rule cfg
       (if sil then (case silence_start st of None \<Rightarrow> Some (current_time ob) | Some t \<Rightarrow> Some t)
        else None)
       (current_time ob)
       (chunk_duration (accumulated_frames st @ drop (last_process_size st) (frames ob)))"
  using assms
  by (simp add: tick_rule_def classified_silence_start classified_acc batch_silent_def
      new_frames_def)



lemma process_audio_single:
  "recording ob \<Longrightarrow> uncaught w = None \<Longrightarrow>
   process_audio sp cfg [ob] (st, w) = tick sp cfg ob (st, w)"
  by simp





section \<open>The silence rule\<close>

lemma silent_run_waits:
  assumes "batch_run True cfg (last_process_size st) obs"
    and "\<not> is_processing st"
    and "chunk_duration (accumulated_frames st @ appended (last_process_size st) obs)
           < max_chunk_duration cfg"
    and "uncaught w = None"
    and "silence_start st = Some t1 \<or>
         (silence_start st = None \<and> (obs = [] \<or> current_time (hd obs) = t1))"
    and "\<forall>b \<in> set obs. current_time b - t1 < min_silence_duration cfg"
  shows "snd (process_audio sp cfg obs (st, w)) = w \<and>
     accumulated_frames (fst (process_audio sp cfg obs (st, w))) =
       accumulated_frames st @ appended (last_process_size st) obs \<and>
     \<not> is_processing (fst (process_audio sp cfg obs (st, w))) \<and>
     last_process_size (fst (process_audio sp cfg obs (st, w))) =
       (if obs = [] then last_process_size st else current_size (last obs)) \<and>
     silence_start (fst (process_audio sp cfg obs (st, w))) =
       (if obs = [] then silence_start st else Some t1)"
  using assms
proof (induction obs arbitrary: st)
  case Nil
  then show ?case by simp
next
  case (Cons ob obs)
  let ?st1 = "(classified cfg ob st)\<lparr>last_process_size := current_size ob\<rparr>"
  have g: "recording ob" "last_process_size st < current_size ob"
    and l: "detect_silence (concat (drop (last_process_size st) (frames ob))) (threshold cfg) = True"
    and rest: "batch_run True cfg (current_size ob) obs"
    using Cons.prems(1) by simp_all
  have d: "chunk_duration (accumulated_frames st @ drop (last_process_size st) (frames ob))
      < max_chunk_duration cfg"
    using Cons.prems(3) g(2)
      chunk_duration_mono [of "accumulated_frames st @ drop (last_process_size st) (frames ob)"
        "appended (current_size ob) obs"]
    by simp
  have m: "(case silence_start st of None \<Rightarrow> Some (current_time ob) | Some t \<Rightarrow> Some t) = Some t1"
    using Cons.prems(5) by auto
  have w8: "current_time ob - t1 < min_silence_duration cfg"
    using Cons.prems(6) by simp
  have r: "tick_rule cfg ob st = None"
    using d w8 by (simp add: batch_tick_rule [OF Cons.prems(2) g(2) l] m emission_rule_def)
  have t: "tick sp cfg ob (st, w) = (?st1, w)"
    by (rule tick_quiet [OF Cons.prems(2) g(2) r])
  have a: "accumulated_frames ?st1 = accumulated_frames st @ drop (last_process_size st) (frames ob)"
    by (simp add: classified_acc new_frames_def)
  have s1: "silence_start ?st1 = Some t1"
    using l m by (simp add: classified_silence_start batch_silent_def new_frames_def)
  have ih: "snd (process_audio sp cfg obs (?st1, w)) = w \<and>
     accumulated_frames (fst (process_audio sp cfg obs (?st1, w))) =
       accumulated_frames ?st1 @ appended (last_process_size ?st1) obs \<and>
     \<not> is_processing (fst (process_audio sp cfg obs (?st1, w))) \<and>
     last_process_size (fst (process_audio sp cfg obs (?st1, w))) =
       (if obs = [] then last_process_size ?st1 else current_size (last obs)) \<and>
     silence_start (fst (process_audio sp cfg obs (?st1, w))) =
       (if obs = [] then silence_start ?st1 else Some t1)"
  proof (rule Cons.IH)
    show "batch_run True cfg (last_process_size ?st1) obs" using rest by simp
    show "\<not> is_processing ?st1" using Cons.prems(2) by (simp add: classified_keeps)
    show "chunk_duration (accumulated_frames ?st1 @ appended (last_process_size ?st1) obs)
       < max_chunk_duration cfg"
      using Cons.prems(3) g(2) by (simp add: a)
    show "uncaught w = None" by (rule Cons.prems(4))
    show "silence_start ?st1 = Some t1 \<or>
         (silence_start ?st1 = None \<and> (obs = [] \<or> current_time (hd obs) = t1))"
      using s1 by simp
    show "\<forall>b \<in> set obs. current_time b - t1 < min_silence_duration cfg"
      using Cons.prems(6) by simp
  qed
  show ?case using ih g Cons.prems(4) s1 by (simp add: t a)
qed

text \<open>
  C2 as the code has it. The silence duration the code measures is the clock reading of
  the iteration minus the marker \<open>t1\<close>, which is set by the first iteration that
  classifies a silent batch while the marker is clear; \<^verbatim>\<open>if silence_start and ...\<close>
  needs \<open>t1\<close> to be non-zero. Take a pending chunk of at least \<^verbatim>\<open>min_chunk_duration\<close> and
  a run of iterations that all find new frames and classify them silent. If the pending
  chunk stays below \<^verbatim>\<open>max_chunk_duration\<close> before the last iteration, and the last
  iteration is the first whose clock reading is \<^verbatim>\<open>min_silence_duration\<close> or more past
  \<open>t1\<close>, then nothing is emitted before the last iteration, and the last iteration
  emits, by the silence rule, one chunk with all pending frames.
\<close>

theorem silence_rule_fires:
  assumes "\<not> is_processing st" and "uncaught w = None"
    and "silence_start st = Some t1 \<or>
         (silence_start st = None \<and> current_time (hd (obs @ [ob'])) = t1)"
    and "t1 \<noteq> 0"
    and "min_chunk_duration cfg \<le> chunk_duration (accumulated_frames st)"
    and "batch_run True cfg (last_process_size st) (obs @ [ob'])"
    and "\<forall>b \<in> set obs. current_time b - t1 < min_silence_duration cfg"
    and "min_silence_duration cfg \<le> current_time ob' - t1"
    and "chunk_duration (accumulated_frames st @ appended (last_process_size st) obs)
           < max_chunk_duration cfg"
  shows "handed (snd (process_audio sp cfg obs (st, w))) = handed w \<and>
     tick_rule cfg ob' (fst (process_audio sp cfg obs (st, w))) = Some SilenceRule \<and>
     handed (snd (process_audio sp cfg (obs @ [ob']) (st, w))) =
       handed w @ [accumulated_frames st @ appended (last_process_size st) (obs @ [ob'])]"
proof -
  let ?n = "if obs = [] then last_process_size st else current_size (last obs)"
  let ?s1 = "process_audio sp cfg obs (st, w)"
  have b1: "batch_run True cfg (last_process_size st) obs"
    and b2: "batch_run True cfg ?n [ob']"
    using assms(6) by (simp_all add: batch_run_append)
  have m0: "silence_start st = Some t1 \<or>
         (silence_start st = None \<and> (obs = [] \<or> current_time (hd obs) = t1))"
    using assms(3) by (cases obs) auto
  note p = silent_run_waits [OF b1 assms(1) assms(9) assms(2) m0 assms(7), of sp]
  have s1: "?s1 = (fst ?s1, w)" using p by (metis prod.collapse)
  have rec: "\<forall>b \<in> set obs. recording b" using b1 by (rule batch_run_recording)
  have g: "recording ob'" "last_process_size (fst ?s1) < current_size ob'"
    and l: "detect_silence (concat (drop (last_process_size (fst ?s1)) (frames ob')))
        (threshold cfg) = True"
    using b2 p by simp_all
  have np: "\<not> is_processing (fst ?s1)" using p by simp
  have ap: "appended (last_process_size st) (obs @ [ob']) =
      appended (last_process_size st) obs @ drop (last_process_size (fst ?s1)) (frames ob')"
    using appended_append [OF b1, of "[ob']"] p g(2) by simp
  have acc: "accumulated_frames (fst ?s1) @ drop (last_process_size (fst ?s1)) (frames ob') =
      accumulated_frames st @ appended (last_process_size st) (obs @ [ob'])"
    using p by (simp add: ap)
  have m: "(case silence_start (fst ?s1) of None \<Rightarrow> Some (current_time ob')
            | Some t \<Rightarrow> Some t) = Some t1"
    using p assms(3) by (cases "obs = []") auto
  have dur: "min_chunk_duration cfg \<le>
      chunk_duration (accumulated_frames st @ appended (last_process_size st) (obs @ [ob']))"
    using assms(5) chunk_duration_mono [of "accumulated_frames st"
        "appended (last_process_size st) (obs @ [ob'])"] by simp
  have r: "tick_rule cfg ob' (fst ?s1) = Some SilenceRule"
    using assms(4) assms(8) dur
    by (simp add: batch_tick_rule [OF np g(2) l] m emission_rule_def acc)
  have run: "process_audio sp cfg (obs @ [ob']) (st, w) = tick sp cfg ob' (fst ?s1, w)"
    using process_audio_append [OF rec, of sp cfg "[ob']" "(st, w)"] s1
      process_audio_single [OF g(1) assms(2), of sp cfg "fst ?s1"]
    by simp
  have ca: "accumulated_frames (classified cfg ob' (fst ?s1)) =
      accumulated_frames st @ appended (last_process_size st) (obs @ [ob'])"
    using acc by (simp add: classified_acc new_frames_def)
  have "handed (snd (process_audio sp cfg (obs @ [ob']) (st, w))) =
       handed w @ [accumulated_frames st @ appended (last_process_size st) (obs @ [ob'])]"
    by (simp add: run tick_handed r ca)
  moreover have "handed (snd ?s1) = handed w" using p by simp
  ultimately show ?thesis using r by simp
qed

theorem silence_rule_fires_witness:
  "handed (snd (process_audio ascii_space default_config
      [observe 45 (replicate 44 loud_frame @ [quiet_frame]) (2001 / 20)]
      (\<lparr>silence_start = None, last_process_size = 44,
         accumulated_frames = replicate 44 loud_frame, last_active_time = 100,
         is_processing = False, is_listening = True, is_silent = Some False\<rparr>,
       initial_world))) = [] \<and>
   handed (snd (process_audio ascii_space default_config
      ([observe 45 (replicate 44 loud_frame @ [quiet_frame]) (2001 / 20)] @
       [observe 46 (replicate 44 loud_frame @ [quiet_frame, quiet_frame]) (2021 / 20)])
      (\<lparr>silence_start = None, last_process_size = 44,
         accumulated_frames = replicate 44 loud_frame, last_active_time = 100,
         is_processing = False, is_listening = True, is_silent = Some False\<rparr>,
       initial_world))) = [replicate 44 loud_frame @ [quiet_frame, quiet_frame]]"
proof -
  let ?st = "\<lparr>silence_start = None, last_process_size = 44,
         accumulated_frames = replicate 44 loud_frame, last_active_time = 100,
         is_processing = False, is_listening = True, is_silent = Some False\<rparr>"
  let ?o2 = "observe 45 (replicate 44 loud_frame @ [quiet_frame]) (2001 / 20)"
  let ?o3 = "observe 46 (replicate 44 loud_frame @ [quiet_frame, quiet_frame]) (2021 / 20)"
  have h1: "\<not> is_processing ?st" by simp
  have h2: "uncaught initial_world = None" by (simp add: initial_world_def)
  have h3: "silence_start ?st = Some (2001 / 20) \<or>
         (silence_start ?st = None \<and> current_time (hd ([?o2] @ [?o3])) = 2001 / 20)"
    by (simp add: observe_def)
  have h4: "(2001 / 20 :: real) \<noteq> 0" by simp
  have h5: "min_chunk_duration default_config \<le> chunk_duration (accumulated_frames ?st)"
    by (simp add: run_eval)
  have h6: "batch_run True default_config (last_process_size ?st) ([?o2] @ [?o3])"
    by (simp add: run_eval)
  have h7: "\<forall>b \<in> set [?o2]. current_time b - 2001 / 20 < min_silence_duration default_config"
    by (simp add: run_eval)
  have h8: "min_silence_duration default_config \<le> current_time ?o3 - 2001 / 20"
    by (simp add: run_eval)
  have h9: "chunk_duration (accumulated_frames ?st @ appended (last_process_size ?st) [?o2])
           < max_chunk_duration default_config"
    by (simp add: run_eval)
  have a: "accumulated_frames ?st @ appended (last_process_size ?st) ([?o2] @ [?o3]) =
      replicate 44 loud_frame @ [quiet_frame, quiet_frame]"
    by (simp add: run_eval)
  note f = silence_rule_fires [OF h1 h2 h3 h4 h5 h6 h7 h8 h9, of ascii_space,
      unfolded a handed_initial]
  show ?thesis using f by simp
qed

text \<open>
  C2 as stated fails in two ways. After 9.98 s of speech a quiet frame arrives at
  100.05 s and takes the chunk past 10 s: the force-cut fires, the marker is cleared and
  set again at 100.10 s. The stream stays silent, but at 101.05 s, one second after the
  silence began, no rule fires. And an iteration that finds no new frames evaluates no
  rule, however long the silence has lasted.
\<close>


lemma long_speech_emissions:
  "emissions ascii_space default_config long_speech_then_silence
     (initial_state 99, initial_world) =
   [(ForceCut, replicate 430 loud_frame @ [quiet_frame])]"
  by (simp add: long_speech_then_silence_def tick_rule_def emission_rule_def tick_eval)

lemma long_speech_three:
  "process_audio ascii_space default_config (butlast long_speech_then_silence)
     (initial_state 99, initial_world) =
   (\<lparr>silence_start = Some (1001 / 10), last_process_size = 432,
     accumulated_frames = [quiet_frame],
     last_active_time = 100, is_processing = False, is_listening = False,
     is_silent = Some True\<rparr>,
    initial_world\<lparr>recognize_calls := 1,
      handed := [replicate 430 loud_frame @ [quiet_frame]]\<rparr>)"
  by (simp add: long_speech_then_silence_def tick_eval)

theorem silence_rule_counterexample:
  "min_chunk_duration default_config \<le> chunk_duration (replicate 430 loud_frame) \<and>
   batch_run True default_config 430 (tl long_speech_then_silence) \<and>
   map current_time (tl long_speech_then_silence) = [2001 / 20, 1001 / 10, 2021 / 20] \<and>
   emissions ascii_space default_config long_speech_then_silence
     (initial_state 99, initial_world) =
     [(ForceCut, replicate 430 loud_frame @ [quiet_frame])] \<and>
   tick_rule default_config (last long_speech_then_silence)
     (fst (process_audio ascii_space default_config (butlast long_speech_then_silence)
        (initial_state 99, initial_world))) = None \<and>
   tick ascii_space default_config
     (observe 45 (replicate 44 loud_frame @ [quiet_frame]) 102)
     (process_audio ascii_space default_config speech_then_pause
        (initial_state 99, initial_world)) =
     process_audio ascii_space default_config speech_then_pause
        (initial_state 99, initial_world)"
proof (intro conjI)
  show "min_chunk_duration default_config \<le> chunk_duration (replicate 430 loud_frame)"
    by (simp add: run_eval)
  show "batch_run True default_config 430 (tl long_speech_then_silence)"
    by (simp add: long_speech_then_silence_def run_eval)
  show "map current_time (tl long_speech_then_silence) = [2001 / 20, 1001 / 10, 2021 / 20]"
    by (simp add: long_speech_then_silence_def observe_def)
  show "emissions ascii_space default_config long_speech_then_silence
     (initial_state 99, initial_world) =
     [(ForceCut, replicate 430 loud_frame @ [quiet_frame])]"
    by (rule long_speech_emissions)
  show "tick_rule default_config (last long_speech_then_silence)
     (fst (process_audio ascii_space default_config (butlast long_speech_then_silence)
        (initial_state 99, initial_world))) = None"
    unfolding long_speech_three
    by (simp add: long_speech_then_silence_def tick_rule_def emission_rule_def classified_def
        batch_silent_def Let_def run_eval)
  show "tick ascii_space default_config
     (observe 45 (replicate 44 loud_frame @ [quiet_frame]) 102)
     (process_audio ascii_space default_config speech_then_pause
        (initial_state 99, initial_world)) =
     process_audio ascii_space default_config speech_then_pause
        (initial_state 99, initial_world)"
    unfolding speech_then_pause_run by (simp add: tick_def observe_def)
qed

section \<open>The cursor over the frame buffer\<close>

lemma process_chunk_uncaught:
  "uncaught (process_chunk sp col c w) = None \<Longrightarrow> uncaught w = None"
  by (simp add: process_chunk_def Let_def split: option.splits recognition.splits if_splits)

lemma tick_uncaught:
  "uncaught (snd (tick sp cfg ob (st, w))) = None \<Longrightarrow> uncaught w = None"
proof (cases "is_processing st \<or> \<not> last_process_size st < current_size ob")
  case True
  assume "uncaught (snd (tick sp cfg ob (st, w))) = None"
  with True show ?thesis by (simp add: tick_idle)
next
  case False
  assume u: "uncaught (snd (tick sp cfg ob (st, w))) = None"
  show ?thesis
  proof (cases "tick_rule cfg ob st")
    case None
    with False u show ?thesis by (simp add: tick_quiet)
  next
    case (Some r)
    with False u show ?thesis
      by (auto simp: tick_emits Let_def split: if_splits dest: process_chunk_uncaught)
  qed
qed

lemma partition_step:
  assumes "uncaught (snd (tick sp cfg ob (st, w))) = None"
    and "concat (handed w) @ accumulated_frames st = take (last_process_size st) buf"
    and "last_process_size st \<le> length buf" and "\<not> is_processing st"
    and "prefix buf (frames ob)" and "current_size ob = length (frames ob)"
  shows "concat (handed (snd (tick sp cfg ob (st, w)))) @
           accumulated_frames (fst (tick sp cfg ob (st, w))) =
         take (last_process_size (fst (tick sp cfg ob (st, w)))) (frames ob) \<and>
     last_process_size (fst (tick sp cfg ob (st, w))) \<le> length (frames ob) \<and>
     \<not> is_processing (fst (tick sp cfg ob (st, w)))"
proof -
  obtain zs where zs: "frames ob = buf @ zs" using assms(5) by (auto simp: prefix_def)
  have tk: "take (last_process_size st) (frames ob) = take (last_process_size st) buf"
    using assms(3) by (simp add: zs)
  show ?thesis
  proof (cases "last_process_size st < current_size ob")
    case False
    then have "tick sp cfg ob (st, w) = (st, w)" by (simp add: tick_idle)
    then show ?thesis using assms(2,3,4) tk False assms(6) by simp
  next
    case True
    have whole: "concat (handed w) @ accumulated_frames st @ new_frames ob st = frames ob"
      using assms(2) tk
      by (metis append.assoc append_take_drop_id new_frames_def)
    show ?thesis
    proof (cases "tick_rule cfg ob st")
      case None
      show ?thesis using whole assms(6)
        by (simp add: tick_quiet [OF assms(4) True None] classified_acc classified_keeps assms(4))
    next
      case (Some r)
      have u: "uncaught (process_chunk sp (answers ob)
          (accumulated_frames (classified cfg ob st)) w) = None"
        using assms(1) by (simp add: tick_emits [OF assms(4) True Some] Let_def split: if_splits)
      show ?thesis using whole assms(6) u
        by (simp add: tick_emits [OF assms(4) True Some] Let_def process_chunk_handed
            classified_acc)
    qed
  qed
qed

text \<open>
  When no frame arrives between the two reads of \<^verbatim>\<open>self.frames\<close> in any iteration, the
  chunks handed over, followed by the pending chunk, are exactly the frames up to the
  cursor: no frame is consumed twice.
\<close>

lemma frames_partition_atomic:
  assumes "atomic_run buf obs" and "\<forall>b \<in> set obs. recording b"
    and "uncaught (snd (process_audio sp cfg obs (st, w))) = None"
    and "concat (handed w) @ accumulated_frames st = take (last_process_size st) buf"
    and "last_process_size st \<le> length buf" and "\<not> is_processing st"
  shows "concat (handed (snd (process_audio sp cfg obs (st, w)))) @
           accumulated_frames (fst (process_audio sp cfg obs (st, w))) =
         take (last_process_size (fst (process_audio sp cfg obs (st, w))))
           (if obs = [] then buf else frames (last obs))"
  using assms
proof (induction obs arbitrary: st w buf)
  case Nil
  then show ?case by simp
next
  case (Cons ob obs)
  let ?s1 = "tick sp cfg ob (st, w)"
  have rec: "recording ob" using Cons.prems(2) by simp
  have uw: "uncaught w = None"
  proof (rule ccontr)
    assume "uncaught w \<noteq> None"
    then have "process_audio sp cfg (ob # obs) (st, w) = (st, w)" by simp
    with Cons.prems(3) \<open>uncaught w \<noteq> None\<close> show False by simp
  qed
  have run: "process_audio sp cfg (ob # obs) (st, w) = process_audio sp cfg obs ?s1"
    using rec uw by simp
  have u1: "uncaught (snd ?s1) = None"
  proof (rule ccontr)
    assume "uncaught (snd ?s1) \<noteq> None"
    then have "process_audio sp cfg obs ?s1 = ?s1" by (rule process_audio_dead)
    with Cons.prems(3) run \<open>uncaught (snd ?s1) \<noteq> None\<close> show False by simp
  qed
  have at: "prefix buf (frames ob)" "current_size ob = length (frames ob)"
    "atomic_run (frames ob) obs"
    using Cons.prems(1) by simp_all
  note st = partition_step [OF u1 Cons.prems(4) Cons.prems(5) Cons.prems(6) at(1) at(2)]
  have "concat (handed (snd (process_audio sp cfg obs (fst ?s1, snd ?s1)))) @
           accumulated_frames (fst (process_audio sp cfg obs (fst ?s1, snd ?s1))) =
         take (last_process_size (fst (process_audio sp cfg obs (fst ?s1, snd ?s1))))
           (if obs = [] then frames ob else frames (last obs))"
  proof (rule Cons.IH)
    show "atomic_run (frames ob) obs" by (rule at(3))
    show "\<forall>b \<in> set obs. recording b" using Cons.prems(2) by simp
    show "uncaught (snd (process_audio sp cfg obs (fst ?s1, snd ?s1))) = None"
      using Cons.prems(3) run by simp
    show "concat (handed (snd ?s1)) @ accumulated_frames (fst ?s1) =
        take (last_process_size (fst ?s1)) (frames ob)" using st by simp
    show "last_process_size (fst ?s1) \<le> length (frames ob)" using st by simp
    show "\<not> is_processing (fst ?s1)" using st by simp
  qed
  then show ?case unfolding run by simp
qed

lemma mixed_batch: "detect_silence (loud_frame @ quiet_frame) 200 = False"
  by (simp add: detect_silence_def volume_def loud_frame_def quiet_frame_def np_abs_def)

text \<open>
  C10. The claim: the cursor \<^verbatim>\<open>last_process_size\<close> never rereads a frame. Line 391 reads
  the length of \<^verbatim>\<open>self.frames\<close> and line 395 slices the list to its end, not to that
  length. When the audio callback appends a frame between the two reads, the frame is
  in this iteration's slice and in the next one's: the buffer holds two frames and the
  pending chunk three.
\<close>

theorem frame_consumed_twice:
  "accumulated_frames (fst (process_audio ascii_space default_config frame_between_reads
       (initial_state 99, initial_world))) = [loud_frame, quiet_frame, quiet_frame] \<and>
   handed (snd (process_audio ascii_space default_config frame_between_reads
       (initial_state 99, initial_world))) = [] \<and>
   last_process_size (fst (process_audio ascii_space default_config frame_between_reads
       (initial_state 99, initial_world))) = 2"
  by (simp add: frame_between_reads_def tick_eval mixed_batch)

end
